theory Spec2Isabelle
  imports Main
begin

section \<open>The profiling entrypoint \<open>application.js\<close> as an event-driven state machine\<close>

text \<open>
  The entrypoint is one promise executor followed by \<open>.then(() => require('./server.js'))\<close>.
  Everything after the executor runs in callbacks: the timer, the events of the two child
  processes, the callbacks of \<open>glob\<close> and \<open>fs.stat\<close>. The model runs one callback per
  event (a job), then the promise reactions queued by it, and records every effect the script
  has on the outside world as an action, in program order. A JavaScript string is written as
  its UTF-8 encoding (a \<open>string\<close> of bytes), which is also what a \<open>Buffer\<close> holds.
\<close>

subsection \<open>Values, effects and events\<close>

type_synonym path = string

text \<open>
  A thrown or rejected value: either a value handed in by the runtime (the \<open>err\<close> of a
  callback, the payload of an emitted event), or the \<open>TypeError\<close> that reading a property of
  \<open>undefined\<close> raises.
\<close>

datatype error = Value string | TypeError string

datatype action =
    Log "string list"
  | Warn string error
  | Require string
  | Spawn string "string list"
  | Pipe string string
  | SetTimeout string
  | Kill string
  | Glob string
  | Stat path
  | Uncaught error

text \<open>
  What the runtime delivers to the script. \<open>ServerEmit n v\<close> and \<open>ProfileEmit n v\<close> are the
  events named \<open>n\<close> (with payload \<open>v\<close>) of the two child handles; the callbacks of \<open>glob\<close> and
  \<open>fs.stat\<close> carry \<open>(err, result)\<close>, written as a sum. \<open>Elapse n\<close> is \<open>n\<close> milliseconds going by
  with nothing else delivered; \<open>TimerFired\<close> is the runtime running the callback of the timer,
  which it does no earlier than the timer's delay. The chunks of \<open>ProfileStdout\<close> and
  \<open>ProfileStderr\<close> are the bytes of one \<open>'data'\<close> event.
\<close>

datatype event =
    TimerFired
  | Elapse nat
  | ServerEmit string string
  | GlobCallback "error + path list"
  | StatCallback path "error + int"
  | ProfileStdout string
  | ProfileStderr string
  | ProfileEmit string string

datatype promise = Pending | Resolved | Rejected

text \<open>
  Where the session is: no session (profiling disabled), the profiled child running, waiting
  for \<open>glob\<close>, waiting for the \<open>fs.stat\<close> callbacks (\<open>Promise.all\<close> over the paths, in the order of
  the paths), the post-processor running with its \<open>output\<close> so far, report printed, error caught.
  \<open>Orphaned\<close>: the profiled child was spawned, but the executor threw before it registered a
  listener or armed the timer.
\<close>

datatype phase =
    Idle
  | Profiling
  | Globbing
  | Statting "(path \<times> int option) list"
  | PostProcessing string
  | Done
  | Failed
  | Orphaned

text \<open>
  The state of the process: the outer promise, how often its \<open>resolve\<close> was called, whether
  its reaction is queued, the pending timer (with the delay argument it was given), the
  milliseconds gone by while that timer is pending, the session, whether an uncaught exception
  has ended the process, and the effects so far.
\<close>

record state =
  outer :: promise
  resolve_calls :: nat
  then_queued :: bool
  timer :: "string option"
  clock :: nat
  phase :: phase
  crashed :: bool
  acts :: "action list"

record path_stat =
  path :: string
  mtime :: int

subsection \<open>The artifact locator's selection\<close>

text \<open>
  \<open>paths.sort((a, b) => b.stat.mtime - a.stat.mtime)[0].path\<close>. \<open>Array.prototype.sort\<close> is
  the runtime's: it is taken as a stable sort by the comparator (an element stays in front of a
  later one unless the comparator is positive). Indexing an empty array gives \<open>undefined\<close>, and
  reading \<open>.path\<close> of it throws a \<open>TypeError\<close>.
\<close>

definition cmp_mtime :: "path_stat \<Rightarrow> path_stat \<Rightarrow> int" where
  "cmp_mtime a b = mtime b - mtime a"

fun insert_by :: "('a \<Rightarrow> 'a \<Rightarrow> int) \<Rightarrow> 'a \<Rightarrow> 'a list \<Rightarrow> 'a list" where
  "insert_by cmp x [] = [x]"
| "insert_by cmp x (y # ys) = (if cmp x y \<le> 0 then x # y # ys else y # insert_by cmp x ys)"

definition sort_by :: "('a \<Rightarrow> 'a \<Rightarrow> int) \<Rightarrow> 'a list \<Rightarrow> 'a list" where
  "sort_by cmp xs = foldr (insert_by cmp) xs []"

definition pick_latest :: "path_stat list \<Rightarrow> error + path" where
  "pick_latest paths =
     (case sort_by cmp_mtime paths of
        [] \<Rightarrow> Inl (TypeError ''Cannot read property path of undefined'')
      | c # _ \<Rightarrow> Inr (path c))"

subsection \<open>Buffers to strings\<close>

text \<open>
  \<open>output += chunk\<close>: the chunk is a \<open>Buffer\<close> (the stream has no encoding set), and adding it
  to a string converts it with \<open>toString()\<close>, which decodes these bytes alone as UTF-8. The
  decoder is the runtime's: every ill-formed or unfinished sequence becomes \<open>U+FFFD\<close> (one per
  maximal ill-formed part, as the Encoding Standard has it), every well-formed sequence is
  kept. In the byte representation of strings a kept sequence is itself and \<open>U+FFFD\<close> is
  \<open>EF BF BD\<close>. The decoder's state is the bytes of the sequence it is in, how many more it
  needs, and the range allowed for the next one.
\<close>

definition replacement :: string where
  "replacement = [CHR 0xEF, CHR 0xBF, CHR 0xBD]"

record decoder =
  seen :: string
  needed :: nat
  lower :: nat
  upper :: nat

definition between :: decoder where
  "between = \<lparr>seen = [], needed = 0, lower = 0x80, upper = 0xBF\<rparr>"

definition lead_out :: "char \<Rightarrow> string" where
  "lead_out b =
     (let n = (of_char b :: nat) in
      if n < 0x80 then [b]
      else if 0xC2 \<le> n \<and> n \<le> 0xF4 then []
      else replacement)"

definition lead_state :: "char \<Rightarrow> decoder" where
  "lead_state b =
     (let n = (of_char b :: nat) in
      if 0xC2 \<le> n \<and> n \<le> 0xDF then \<lparr>seen = [b], needed = 1, lower = 0x80, upper = 0xBF\<rparr>
      else if 0xE0 \<le> n \<and> n \<le> 0xEF then
        \<lparr>seen = [b], needed = 2, lower = (if n = 0xE0 then 0xA0 else 0x80),
          upper = (if n = 0xED then 0x9F else 0xBF)\<rparr>
      else if 0xF0 \<le> n \<and> n \<le> 0xF4 then
        \<lparr>seen = [b], needed = 3, lower = (if n = 0xF0 then 0x90 else 0x80),
          upper = (if n = 0xF4 then 0x8F else 0xBF)\<rparr>
      else between)"

fun decode :: "decoder \<Rightarrow> string \<Rightarrow> string" where
  "decode d [] = (if needed d = 0 then [] else replacement)"
| "decode d (b # bs) =
     (if needed d = 0 then lead_out b @ decode (lead_state b) bs
      else if lower d \<le> of_char b \<and> of_char b \<le> upper d then
        (if needed d = 1 then seen d @ [b] @ decode between bs
         else decode \<lparr>seen = seen d @ [b], needed = needed d - 1, lower = 0x80, upper = 0xBF\<rparr> bs)
      else replacement @ lead_out b @ decode (lead_state b) bs)"

definition toString :: "string \<Rightarrow> string" where
  "toString chunk = decode between chunk"

subsection \<open>The delay of a timer\<close>

text \<open>
  \<open>setTimeout(callback, process.env.DEBUG_PROFILE_TIME)\<close> is handed the string of the
  environment. The runtime converts it to a number and sets to 1 every delay that is not
  between 1 and \<open>2^31 - 1\<close>. The conversion is given for strings of decimal digits (the
  durations of the spec); for any other spelling the model does not say when the timer is
  due.
\<close>

fun parse_digits :: "nat \<Rightarrow> string \<Rightarrow> nat option" where
  "parse_digits acc [] = Some acc"
| "parse_digits acc (c # cs) =
     (if 48 \<le> (of_char c :: nat) \<and> (of_char c :: nat) \<le> 57
      then parse_digits (10 * acc + (of_char c - 48)) cs else None)"

definition TIMEOUT_MAX :: nat where
  "TIMEOUT_MAX = 2147483647"

definition clamp_delay :: "nat \<Rightarrow> nat" where
  "clamp_delay n = (if 1 \<le> n \<and> n \<le> TIMEOUT_MAX then n else 1)"

definition timeout_after :: "string \<Rightarrow> nat option" where
  "timeout_after d =
     (case parse_digits 0 d of
        None \<Rightarrow> None
      | Some n \<Rightarrow> Some (clamp_delay n))"

subsection \<open>Event emitters\<close>

text \<open>
  The listeners the script registers, by event name: \<open>server.on('close', ...)\<close> on the
  profiled child, \<open>profile.on('err', reject)\<close> and \<open>profile.on('close', ...)\<close> on the
  post-processor.
\<close>

datatype handler = ServerClosed | RejectProfile | ResolveProfile

definition server_listeners :: "(string \<times> handler) list" where
  "server_listeners = [(''close'', ServerClosed)]"

definition profile_listeners :: "(string \<times> handler) list" where
  "profile_listeners = [(''err'', RejectProfile), (''close'', ResolveProfile)]"

definition listeners_for :: "string \<Rightarrow> (string \<times> handler) list \<Rightarrow> handler list" where
  "listeners_for n ls = map snd (filter (\<lambda>(m, h). m = n) ls)"

subsection \<open>The callbacks\<close>

definition do_acts :: "action list \<Rightarrow> state \<Rightarrow> state" where
  "do_acts as s = s\<lparr>acts := acts s @ as\<rparr>"

text \<open>
  \<open>resolve()\<close> of the outer promise: a pending promise becomes resolved and its reaction (the
  \<open>.then\<close> callback) is queued; a settled promise ignores the call.
\<close>

definition resolve_outer :: "state \<Rightarrow> state" where
  "resolve_outer s =
     (if outer s = Pending
      then s\<lparr>resolve_calls := Suc (resolve_calls s), outer := Resolved, then_queued := True\<rparr>
      else s\<lparr>resolve_calls := Suc (resolve_calls s)\<rparr>)"

text \<open>
  An exception thrown inside the executor rejects the outer promise; its \<open>.then\<close> callback is
  then never run.
\<close>

definition reject_outer :: "state \<Rightarrow> state" where
  "reject_outer s = (if outer s = Pending then s\<lparr>outer := Rejected\<rparr> else s)"

text \<open>The reactions run when the current callback has returned: \<open>require('./server.js')\<close>.\<close>

definition microtasks :: "state \<Rightarrow> state" where
  "microtasks s =
     (if crashed s \<or> \<not> then_queued s then s
      else (do_acts [Require ''./server.js''] s)\<lparr>then_queued := False\<rparr>)"

text \<open>\<open>.catch((err) => console.warn('Error processing profile', err))\<close>\<close>

definition catch_err :: "error \<Rightarrow> state \<Rightarrow> state" where
  "catch_err e s = (do_acts [Warn ''Error processing profile'' e] s)\<lparr>phase := Failed\<rparr>"

text \<open>An exception no one catches ends the process: nothing runs after it.\<close>

definition uncaught :: "error \<Rightarrow> state \<Rightarrow> state" where
  "uncaught e s = (do_acts [Uncaught e] s)\<lparr>crashed := True\<rparr>"

text \<open>The \<open>.then((profile) => ...)\<close> that prints the report.\<close>

definition report :: "string \<Rightarrow> state \<Rightarrow> state" where
  "report profile s =
     (do_acts [Log [''===Profile Output Start============''],
               Log [profile],
               Log [''===Profile Output End============'']] s)\<lparr>phase := Done\<rparr>"

text \<open>The \<open>.then((path) => new Promise(...))\<close> that spawns the post-processor.\<close>

definition process_profile :: "path \<Rightarrow> state \<Rightarrow> state" where
  "process_profile p s =
     (do_acts [Log [''Processing profile...'', p],
               Spawn ''node'' [''--prof-process'', p]] s)\<lparr>phase := PostProcessing ''''\<rparr>"

text \<open>
  \<open>Promise.all\<close>: fulfilled with the results in the order of the paths once every \<open>fs.stat\<close>
  has answered; then the sort and the selection; a throw there goes to the \<open>.catch\<close>.
\<close>

fun collect :: "(path \<times> int option) list \<Rightarrow> path_stat list option" where
  "collect [] = Some []"
| "collect ((p, None) # r) = None"
| "collect ((p, Some m) # r) =
     (case collect r of None \<Rightarrow> None | Some cs \<Rightarrow> Some (\<lparr>path = p, mtime = m\<rparr> # cs))"

definition promise_all :: "(path \<times> int option) list \<Rightarrow> state \<Rightarrow> state" where
  "promise_all pend s =
     (case collect pend of
        None \<Rightarrow> s\<lparr>phase := Statting pend\<rparr>
      | Some cs \<Rightarrow> (case pick_latest cs of Inl e \<Rightarrow> catch_err e s | Inr p \<Rightarrow> process_profile p s))"

text \<open>The \<open>glob\<close> callback and the \<open>.then\<close> that calls \<open>fs.stat\<close> on every path.\<close>

definition on_glob :: "error + path list \<Rightarrow> state \<Rightarrow> state" where
  "on_glob r s =
     (case r of
        Inl e \<Rightarrow> catch_err e s
      | Inr paths \<Rightarrow> promise_all (map (\<lambda>p. (p, None)) paths) (do_acts (map Stat paths) s))"

fun fill :: "path \<Rightarrow> int \<Rightarrow> (path \<times> int option) list \<Rightarrow> (path \<times> int option) list" where
  "fill p m [] = []"
| "fill p m ((q, v) # r) = (if q = p \<and> v = None then (q, Some m) # r else (q, v) # fill p m r)"

text \<open>
  A \<open>fs.stat\<close> callback: an error rejects \<open>Promise.all\<close> at once, a result fills the slot of
  its path. A callback for a path with no open slot does not occur.
\<close>

definition on_stat :: "path \<Rightarrow> error + int \<Rightarrow> (path \<times> int option) list \<Rightarrow> state \<Rightarrow> state" where
  "on_stat p r pend s =
     (if (p, None) \<notin> set pend then s
      else case r of Inl e \<Rightarrow> catch_err e s | Inr m \<Rightarrow> promise_all (fill p m pend) s)"

text \<open>\<open>findLatestProfile()\<close> up to its first suspension.\<close>

definition findLatestProfile :: "state \<Rightarrow> state" where
  "findLatestProfile s =
     (do_acts [Log [''Finding latest profile...''], Glob ''isolate-*''] s)\<lparr>phase := Globbing\<rparr>"

text \<open>
  The three listeners. The two of the post-processor settle a promise, which is settled once:
  the first of them to run wins.
\<close>

fun run_handler :: "string \<Rightarrow> handler \<Rightarrow> state \<Rightarrow> state" where
  "run_handler v ServerClosed s =
     findLatestProfile
       (resolve_outer (do_acts [Log [''Restarting server without profiling now'']] s))"
| "run_handler v RejectProfile s =
     (case phase s of PostProcessing out \<Rightarrow> catch_err (Value v) s | _ \<Rightarrow> s)"
| "run_handler v ResolveProfile s =
     (case phase s of PostProcessing out \<Rightarrow> report out s | _ \<Rightarrow> s)"

text \<open>
  \<open>emit\<close>: the listeners registered under the name run in order; an \<open>'error'\<close> event with no
  listener is thrown (the contract of the runtime's event emitters), any other is dropped.
\<close>

definition emit :: "(string \<times> handler) list \<Rightarrow> string \<Rightarrow> string \<Rightarrow> state \<Rightarrow> state" where
  "emit ls n v s =
     (case listeners_for n ls of
        [] \<Rightarrow> (if n = ''error'' then uncaught (Value v) s else s)
      | hs \<Rightarrow> fold (run_handler v) hs s)"

subsection \<open>The executor and the event loop\<close>

text \<open>\<open>!process.env.DEBUG_PROFILE_TIME\<close>: an unset variable and the empty string are falsy.\<close>

definition truthy :: "string option \<Rightarrow> bool" where
  "truthy env = (case env of None \<Rightarrow> False | Some d \<Rightarrow> d \<noteq> [])"

definition init :: state where
  "init = \<lparr>outer = Pending, resolve_calls = 0, then_queued = False, timer = None, clock = 0,
           phase = Idle, crashed = False, acts = []\<rparr>"

text \<open>
  What the executor depends on outside the script: whether a module can be loaded (\<open>require\<close>
  throws if not), whether \<open>spawn\<close> throws instead of returning a handle, and whether the
  handle it returns has its \<open>stdout\<close> and \<open>stderr\<close> streams (without them
  \<open>server.stdout.pipe\<close> throws a \<open>TypeError\<close>). On the healthy host nothing throws.
\<close>

record host =
  module_missing :: "string \<Rightarrow> bool"
  spawn_throws :: bool
  spawn_streams :: bool

definition healthy :: host where
  "healthy = \<lparr>module_missing = (\<lambda>m. False), spawn_throws = False, spawn_streams = True\<rparr>"

text \<open>
  One call of the executor that may throw: a throw ends the executor there, with the effects
  made so far, and rejects the promise. The executor, call by call: the log line, the three
  \<open>require\<close>s, \<open>spawn\<close>, the two \<open>pipe\<close>s, then \<open>server.on('close', ...)\<close> and \<open>setTimeout\<close>.
\<close>

definition attempt :: "bool \<Rightarrow> action list \<Rightarrow> (state \<Rightarrow> state) \<Rightarrow> state \<Rightarrow> state" where
  "attempt throws as rest s = (if throws then reject_outer s else rest (do_acts as s))"

definition executor :: "host \<Rightarrow> string option \<Rightarrow> state \<Rightarrow> state" where
  "executor h env s =
     (case env of
        None \<Rightarrow> resolve_outer s
      | Some d \<Rightarrow>
          if d = [] then resolve_outer s
          else
            attempt False [Log [''Profiling application for '' @ d @ '' ms...'']]
           (attempt (module_missing h ''child_process'') [Require ''child_process'']
           (attempt (module_missing h ''glob'') [Require ''glob'']
           (attempt (module_missing h ''fs'') [Require ''fs'']
           (attempt (spawn_throws h) [Spawn ''node'' [''--prof'', ''server.js'']]
           (\<lambda>s. attempt (\<not> spawn_streams h)
                  [Pipe ''server.stdout'' ''process.stdout'',
                   Pipe ''server.stderr'' ''process.stderr'']
                  (\<lambda>s. (do_acts [SetTimeout d] s)
                          \<lparr>phase := Profiling, timer := Some d, clock := 0\<rparr>)
                  (s\<lparr>phase := Orphaned\<rparr>)))))) s)"

text \<open>
  The timer. Its callback is \<open>server.kill('SIGINT')\<close> and runs once. While the timer is
  pending the clock counts the milliseconds; the callback runs when the clock reaches the delay,
  and when the runtime runs it (\<open>TimerFired\<close>) the delay has gone by.
\<close>

definition timer_callback :: "state \<Rightarrow> state" where
  "timer_callback s = (do_acts [Kill ''SIGINT''] s)\<lparr>timer := None\<rparr>"

definition elapse :: "nat \<Rightarrow> state \<Rightarrow> state" where
  "elapse n s =
     (case timer s of
        None \<Rightarrow> s
      | Some d \<Rightarrow>
          (case timeout_after d of
             None \<Rightarrow> s\<lparr>clock := clock s + n\<rparr>
           | Some ms \<Rightarrow>
               if ms \<le> clock s + n then timer_callback (s\<lparr>clock := clock s + n\<rparr>)
               else s\<lparr>clock := clock s + n\<rparr>))"

definition timer_fired :: "state \<Rightarrow> state" where
  "timer_fired s =
     (case timer s of
        None \<Rightarrow> s
      | Some d \<Rightarrow>
          (case timeout_after d of
             None \<Rightarrow> timer_callback s
           | Some ms \<Rightarrow> timer_callback (s\<lparr>clock := max (clock s) ms\<rparr>)))"

text \<open>
  One callback. A child handle emits while it lives: the profiled child until its \<open>close\<close>,
  the post-processor from its spawn on; the callbacks of \<open>glob\<close> and \<open>fs.stat\<close> come only when
  they are awaited. An orphaned child has no listener at all.
  \<open>profile.stdout.on('data', (chunk) => output += chunk)\<close> is the only data listener.
\<close>

definition job :: "event \<Rightarrow> state \<Rightarrow> state" where
  "job e s =
     (case e of
        TimerFired \<Rightarrow> timer_fired s
      | Elapse n \<Rightarrow> elapse n s
      | ServerEmit n v \<Rightarrow>
          (if phase s = Profiling then emit server_listeners n v s
           else if phase s = Orphaned then emit [] n v s
           else s)
      | GlobCallback r \<Rightarrow> (if phase s = Globbing then on_glob r s else s)
      | StatCallback p r \<Rightarrow> (case phase s of Statting pend \<Rightarrow> on_stat p r pend s | _ \<Rightarrow> s)
      | ProfileStdout chunk \<Rightarrow>
          (case phase s of
             PostProcessing out \<Rightarrow> s\<lparr>phase := PostProcessing (out @ toString chunk)\<rparr>
           | _ \<Rightarrow> s)
      | ProfileStderr chunk \<Rightarrow> s
      | ProfileEmit n v \<Rightarrow>
          (case phase s of PostProcessing out \<Rightarrow> emit profile_listeners n v s | _ \<Rightarrow> s))"

definition step :: "state \<Rightarrow> event \<Rightarrow> state" where
  "step s e = (if crashed s then s else microtasks (job e s))"

text \<open>The run of the script on a host, and on the healthy host.\<close>

definition start_in :: "host \<Rightarrow> string option \<Rightarrow> state" where
  "start_in h env = microtasks (executor h env init)"

definition run_in :: "host \<Rightarrow> string option \<Rightarrow> event list \<Rightarrow> state" where
  "run_in h env evs = foldl step (start_in h env) evs"

definition start :: "string option \<Rightarrow> state" where
  "start env = start_in healthy env"

definition run :: "string option \<Rightarrow> event list \<Rightarrow> state" where
  "run env evs = foldl step (start env) evs"

subsection \<open>Observations\<close>

definition service_loaded :: "state \<Rightarrow> bool" where
  "service_loaded s = (Require ''./server.js'' \<in> set (acts s))"

fun is_postproc_spawn :: "action \<Rightarrow> bool" where
  "is_postproc_spawn (Spawn c (a # args)) = (a = ''--prof-process'')"
| "is_postproc_spawn _ = False"

definition postproc_spawned :: "state \<Rightarrow> bool" where
  "postproc_spawned s = list_ex is_postproc_spawn (acts s)"

fun is_spawn :: "action \<Rightarrow> bool" where
  "is_spawn (Spawn c args) = True"
| "is_spawn _ = False"

fun is_kill :: "action \<Rightarrow> bool" where
  "is_kill (Kill sig) = True"
| "is_kill _ = False"

fun is_warn :: "action \<Rightarrow> bool" where
  "is_warn (Warn m e) = True"
| "is_warn _ = False"

definition kills :: "state \<Rightarrow> action list" where
  "kills s = filter is_kill (acts s)"

definition report_printed :: "state \<Rightarrow> bool" where
  "report_printed s = (Log [''===Profile Output Start============''] \<in> set (acts s))"

text \<open>The chunks the post-processor wrote to its standard output, in arrival order.\<close>

fun stdout_chunks :: "event list \<Rightarrow> string list" where
  "stdout_chunks [] = []"
| "stdout_chunks (ProfileStdout chunk # es) = chunk # stdout_chunks es"
| "stdout_chunks (e # es) = stdout_chunks es"

fun is_profile_emit :: "event \<Rightarrow> bool" where
  "is_profile_emit (ProfileEmit n v) = True"
| "is_profile_emit _ = False"

fun is_server_emit :: "event \<Rightarrow> bool" where
  "is_server_emit (ServerEmit n v) = True"
| "is_server_emit _ = False"

text \<open>The effects that stand in front of \<open>require('./server.js')\<close> in program order.\<close>

definition before_load :: "state \<Rightarrow> action list" where
  "before_load s = takeWhile (\<lambda>a. a \<noteq> Require ''./server.js'') (acts s)"

text \<open>
  What the session does once a callback of \<open>glob\<close> has run: the \<open>fs.stat\<close> calls, the spawn of
  the post-processor and its log line, the report, the warning of the \<open>.catch\<close>.
\<close>

fun is_session_result :: "action \<Rightarrow> bool" where
  "is_session_result (Stat p) = True"
| "is_session_result (Warn m e) = True"
| "is_session_result (Spawn c args) = is_postproc_spawn (Spawn c args)"
| "is_session_result (Log (m # ms)) =
     (m = ''Processing profile...'' \<or> m = ''===Profile Output Start============'')"
| "is_session_result _ = False"


text \<open>Some call of the executor throws on this host.\<close>

definition executor_throws :: "host \<Rightarrow> bool" where
  "executor_throws h =
     (module_missing h ''child_process'' \<or> module_missing h ''glob'' \<or> module_missing h ''fs''
      \<or> spawn_throws h \<or> \<not> spawn_streams h)"

subsection \<open>Invariants of the session\<close>

text \<open>No session: profiling is disabled, nothing is armed and nothing is awaited.\<close>

definition idle_inv :: "state \<Rightarrow> bool" where
  "idle_inv s = (phase s = Idle \<and> timer s = None \<and> \<not> then_queued s)"

text \<open>Before the \<open>close\<close> of the profiled child has been handled.\<close>

definition pre_close :: "state \<Rightarrow> bool" where
  "pre_close s =
     (phase s = Profiling \<and> outer s = Pending \<and> \<not> then_queued s \<and> resolve_calls s = 0
      \<and> \<not> service_loaded s \<and> \<not> postproc_spawned s \<and> \<not> report_printed s
      \<and> \<not> list_ex is_session_result (acts s))"

text \<open>After it.\<close>

definition post_close :: "state \<Rightarrow> bool" where
  "post_close s =
     (phase s \<noteq> Idle \<and> phase s \<noteq> Profiling \<and> outer s = Resolved \<and> \<not> then_queued s
      \<and> resolve_calls s = 1 \<and> service_loaded s)"

text \<open>The session has ended in the \<open>.catch\<close>, with the warning \<open>w\<close> logged.\<close>

definition failed_with :: "action \<Rightarrow> state \<Rightarrow> bool" where
  "failed_with w s =
     (phase s = Failed \<and> \<not> then_queued s \<and> \<not> crashed s \<and> \<not> postproc_spawned s
      \<and> \<not> report_printed s \<and> service_loaded s \<and> w \<in> set (acts s))"


text \<open>The executor has thrown: the outer promise is rejected and nothing was set up.\<close>

definition aborted :: "state \<Rightarrow> bool" where
  "aborted s =
     (outer s = Rejected \<and> (phase s = Idle \<or> phase s = Orphaned) \<and> timer s = None
      \<and> \<not> then_queued s \<and> resolve_calls s = 0 \<and> \<not> service_loaded s)"

section \<open>Basic facts about runs\<close>

lemmas handler_defs = microtasks_def resolve_outer_def reject_outer_def do_acts_def emit_def
  listeners_for_def timer_callback_def elapse_def timer_fired_def
  server_listeners_def profile_listeners_def findLatestProfile_def on_glob_def on_stat_def
  promise_all_def catch_err_def uncaught_def report_def process_profile_def

lemmas decode_defs = toString_def between_def lead_out_def lead_state_def replacement_def

lemmas timeout_defs = timeout_after_def clamp_delay_def TIMEOUT_MAX_def

lemmas run_defs = run_def start_def start_in_def run_in_def step_def job_def executor_def
  attempt_def healthy_def init_def decode_defs timeout_defs

lemmas obs_defs = service_loaded_def postproc_spawned_def kills_def report_printed_def

lemma run_append: "run env (xs @ ys) = foldl step (run env xs) ys"
  by (simp add: run_def)

lemma run_snoc: "run env (xs @ [e]) = step (run env xs) e"
  by (simp add: run_def)


lemma truthy_Some: "truthy env \<Longrightarrow> \<exists>d. env = Some d \<and> d \<noteq> []"
  by (cases env) (simp_all add: truthy_def)

text \<open>Every reaction queued by a callback has run before the next callback starts.\<close>

lemma then_queued_step: "\<not> then_queued s \<Longrightarrow> \<not> then_queued (step s e)"
  by (cases e)
     (auto simp: step_def job_def handler_defs pick_latest_def
           split: option.splits phase.splits sum.splits list.splits if_splits)

lemma then_queued_run: "\<not> then_queued (run env evs)"
proof (induction evs rule: rev_induct)
  case Nil
  show ?case
    by (cases env) (auto simp: run_def start_def start_in_def executor_def attempt_def healthy_def init_def handler_defs)
next
  case (snoc e evs)
  then show ?case by (simp add: run_snoc then_queued_step)
qed

subsection \<open>Profiling disabled\<close>

lemma start_disabled:
  "\<not> truthy env \<Longrightarrow>
   start env = init\<lparr>outer := Resolved, resolve_calls := 1, acts := [Require ''./server.js'']\<rparr>"
  by (auto simp: truthy_def start_def start_in_def executor_def attempt_def healthy_def init_def handler_defs split: option.splits)

lemma idle_step: "idle_inv s \<Longrightarrow> step s e = s"
  by (cases e) (auto simp: idle_inv_def step_def job_def handler_defs)

lemma idle_run: "idle_inv s \<Longrightarrow> foldl step s evs = s"
  by (induction evs) (simp_all add: idle_step)

lemma run_disabled: "\<not> truthy env \<Longrightarrow> run env evs = start env"
  unfolding run_def by (rule idle_run) (simp add: start_disabled idle_inv_def init_def)

subsection \<open>Profiling enabled: before and after the close of the profiled child\<close>

lemma start_enabled:
  "d \<noteq> [] \<Longrightarrow>
   pre_close (start (Some d)) \<and> \<not> crashed (start (Some d)) \<and> timer (start (Some d)) = Some d"
  by (simp add: start_def start_in_def executor_def attempt_def healthy_def init_def handler_defs pre_close_def obs_defs)

lemma pre_close_step:
  "pre_close s \<Longrightarrow> \<forall>v. e \<noteq> ServerEmit ''close'' v \<Longrightarrow> pre_close (step s e)"
  by (cases e)
     (auto simp: step_def job_def handler_defs pre_close_def obs_defs split: option.splits)

lemma pre_close_close:
  "pre_close s \<Longrightarrow> \<not> crashed s \<Longrightarrow>
   step s (ServerEmit ''close'' v) =
     s\<lparr>acts := acts s @ [Log [''Restarting server without profiling now''],
          Log [''Finding latest profile...''], Glob ''isolate-*'', Require ''./server.js''],
       phase := Globbing, outer := Resolved, resolve_calls := 1\<rparr>"
  by (simp add: step_def job_def handler_defs pre_close_def)

lemma post_close_step: "post_close s \<Longrightarrow> post_close (step s e)"
  by (cases e)
     (auto simp: step_def job_def handler_defs post_close_def service_loaded_def pick_latest_def
           split: option.splits phase.splits sum.splits list.splits)

lemma pre_close_run:
  "d \<noteq> [] \<Longrightarrow> \<forall>v. ServerEmit ''close'' v \<notin> set evs \<Longrightarrow> pre_close (run (Some d) evs)"
proof (induction evs rule: rev_induct)
  case Nil
  then show ?case by (simp add: run_def start_enabled)
next
  case (snoc e evs)
  then show ?case by (auto simp: run_snoc intro!: pre_close_step)
qed

lemma pre_post_close_step:
  assumes h: "pre_close s \<or> post_close s"
  shows "pre_close (step s e) \<or> post_close (step s e)"
proof (cases "crashed s")
  case True
  with h show ?thesis by (simp add: step_def)
next
  case alive: False
  show ?thesis
  proof (cases "\<exists>v. e = ServerEmit ''close'' v")
    case True
    then obtain v where e: "e = ServerEmit ''close'' v" by blast
    from h show ?thesis
    proof
      assume p: "pre_close s"
      have "post_close (step s e)"
        using pre_close_close [OF p alive, of v] p
        by (simp add: e post_close_def pre_close_def service_loaded_def)
      then show ?thesis ..
    next
      assume "post_close s"
      then show ?thesis by (simp add: post_close_step)
    qed
  next
    case False
    with h show ?thesis by (auto intro: pre_close_step post_close_step)
  qed
qed

lemma reach_inv: "d \<noteq> [] \<Longrightarrow> pre_close (run (Some d) evs) \<or> post_close (run (Some d) evs)"
proof (induction evs rule: rev_induct)
  case Nil
  then show ?case by (simp add: run_def start_enabled)
next
  case (snoc e evs)
  then show ?case unfolding run_snoc by (intro pre_post_close_step) simp
qed

lemma post_close_run: "post_close s \<Longrightarrow> post_close (foldl step s evs)"
  by (induction evs arbitrary: s) (simp_all add: post_close_step)

text \<open>Until the profiled child emits something, the process is alive and the session waits.\<close>

lemma pre_close_alive_step:
  "pre_close s \<Longrightarrow> \<not> crashed s \<Longrightarrow> \<not> is_server_emit e \<Longrightarrow> \<not> crashed (step s e)"
  by (cases e) (auto simp: step_def job_def handler_defs pre_close_def split: option.splits)

lemma no_server_emit_no_close:
  "\<not> list_ex is_server_emit evs \<Longrightarrow> \<forall>v. ServerEmit ''close'' v \<notin> set evs"
  by (induction evs) auto

lemma pre_close_alive_run:
  "d \<noteq> [] \<Longrightarrow> \<not> list_ex is_server_emit evs \<Longrightarrow>
   pre_close (run (Some d) evs) \<and> \<not> crashed (run (Some d) evs)"
proof (induction evs rule: rev_induct)
  case Nil
  then show ?case by (simp add: run_def start_enabled)
next
  case (snoc e evs)
  then have ih: "pre_close (run (Some d) evs)" "\<not> crashed (run (Some d) evs)"
    and e: "\<not> is_server_emit e" by simp_all
  have "pre_close (run (Some d) (evs @ [e]))"
    using snoc.prems pre_close_run no_server_emit_no_close by blast
  moreover have "\<not> crashed (run (Some d) (evs @ [e]))"
    unfolding run_snoc by (rule pre_close_alive_step [OF ih e])
  ultimately show ?case by blast
qed

section \<open>When the wrapped service is loaded\<close>

text \<open>Effects are only ever added at the end: what stands in front of the load stays there.\<close>

lemma acts_step_append: "\<exists>as. acts (step s e) = acts s @ as"
  by (cases e)
     (auto simp: step_def job_def handler_defs pick_latest_def
           split: option.splits phase.splits sum.splits list.splits)

lemma before_load_step:
  assumes "service_loaded s"
  shows "before_load (step s e) = before_load s"
proof -
  obtain as where "acts (step s e) = acts s @ as" using acts_step_append by blast
  with assms show ?thesis
    by (simp add: before_load_def service_loaded_def takeWhile_append1)
qed

lemma pre_close_in_order: "pre_close s \<Longrightarrow> \<not> list_ex is_session_result (before_load s)"
  by (auto simp: pre_close_def before_load_def list_ex_iff dest: set_takeWhileD)

lemma in_order_step:
  assumes h: "pre_close s \<or> post_close s \<and> \<not> list_ex is_session_result (before_load s)"
  shows "pre_close (step s e)
       \<or> post_close (step s e) \<and> \<not> list_ex is_session_result (before_load (step s e))"
proof (cases "crashed s")
  case True
  with h show ?thesis by (simp add: step_def)
next
  case alive: False
  from h show ?thesis
  proof
    assume p: "pre_close s"
    show ?thesis
    proof (cases "\<exists>v. e = ServerEmit ''close'' v")
      case True
      then obtain v where e: "e = ServerEmit ''close'' v" by blast
      have n: "Require ''./server.js'' \<notin> set (acts s)"
        using p by (simp add: pre_close_def service_loaded_def)
      have r: "\<not> list_ex is_session_result (acts s)" using p by (simp add: pre_close_def)
      have "post_close (step s e)"
        using pre_close_close [OF p alive, of v] p
        by (simp add: e post_close_def pre_close_def service_loaded_def)
      moreover have "before_load (step s e)
          = acts s @ [Log [''Restarting server without profiling now''],
              Log [''Finding latest profile...''], Glob ''isolate-*'']"
      proof -
        from n have "\<forall>a \<in> set (acts s). a \<noteq> Require ''./server.js''" by auto
        then show ?thesis
          using pre_close_close [OF p alive, of v]
          by (simp add: e before_load_def takeWhile_append2)
      qed
      ultimately show ?thesis using r by simp
    next
      case False
      with p have "pre_close (step s e)" by (auto intro: pre_close_step)
      then show ?thesis ..
    qed
  next
    assume q: "post_close s \<and> \<not> list_ex is_session_result (before_load s)"
    then have "service_loaded s" by (simp add: post_close_def)
    with q show ?thesis by (simp add: post_close_step before_load_step)
  qed
qed

lemma in_order_run:
  "d \<noteq> [] \<Longrightarrow>
   pre_close (run (Some d) evs)
   \<or> post_close (run (Some d) evs)
     \<and> \<not> list_ex is_session_result (before_load (run (Some d) evs))"
proof (induction evs rule: rev_induct)
  case Nil
  then show ?case by (simp add: run_def start_enabled)
next
  case (snoc e evs)
  then show ?case unfolding run_snoc by (intro in_order_step) simp
qed

text \<open>
  C1 (as stated, refuted). The claim says the in-process load of the wrapped service happens
  only once the session has reached \<open>Done\<close> or \<open>Failed\<close>. The close handler calls \<open>resolve()\<close>
  before it starts \<open>findLatestProfile()\<close>: with the timer fired and the profiled child closed,
  \<open>./server.js\<close> is already required while the session is still waiting for \<open>glob\<close> and no
  post-processor has been spawned.
\<close>

theorem service_loaded_before_report:
  "service_loaded (run (Some ''100'') [TimerFired, ServerEmit ''close'' ''0''])
   \<and> phase (run (Some ''100'') [TimerFired, ServerEmit ''close'' ''0'']) = Globbing
   \<and> \<not> postproc_spawned (run (Some ''100'') [TimerFired, ServerEmit ''close'' ''0''])"
  by (simp add: run_defs handler_defs obs_defs)

text \<open>
  C1 (amended). With profiling enabled, the wrapped service is never loaded before the close
  event of the profiled child has been observed. It is loaded in the turn of that event: the
  handler logs, resolves the outer promise, logs again and calls \<open>glob\<close>, and when it has
  returned \<open>./server.js\<close> is required; these four effects are all the turn does. So the load
  comes after the start of artifact discovery and before everything that follows a callback of
  \<open>glob\<close>: in program order no \<open>fs.stat\<close> call, no spawn of the post-processor, no report and
  no warning stands in front of it, and whenever the session has left \<open>Profiling\<close> or a
  post-processor has been spawned, the service has been loaded.
\<close>

theorem service_start_after_close:
  assumes "truthy env"
  shows "((\<forall>v. ServerEmit ''close'' v \<notin> set evs) \<longrightarrow> \<not> service_loaded (run env evs))
       \<and> (\<not> list_ex is_server_emit pre \<longrightarrow>
            acts (run env (pre @ [ServerEmit ''close'' v]))
              = acts (run env pre)
                @ [Log [''Restarting server without profiling now''],
                   Log [''Finding latest profile...''], Glob ''isolate-*'',
                   Require ''./server.js''])
       \<and> \<not> list_ex is_session_result (before_load (run env evs))
       \<and> (phase (run env evs) \<noteq> Profiling \<longrightarrow> service_loaded (run env evs))
       \<and> (postproc_spawned (run env evs) \<longrightarrow> service_loaded (run env evs))"
proof -
  from assms obtain d where d: "env = Some d" "d \<noteq> []" using truthy_Some by blast
  have a: "(\<forall>v. ServerEmit ''close'' v \<notin> set evs) \<longrightarrow> \<not> service_loaded (run env evs)"
    using pre_close_run [OF d(2), of evs] by (simp add: d pre_close_def)
  have b: "acts (run env (pre @ [ServerEmit ''close'' v]))
              = acts (run env pre)
                @ [Log [''Restarting server without profiling now''],
                   Log [''Finding latest profile...''], Glob ''isolate-*'',
                   Require ''./server.js'']"
    if n: "\<not> list_ex is_server_emit pre"
  proof -
    note p = pre_close_alive_run [OF d(2) n]
    show ?thesis
      using pre_close_close [of "run (Some d) pre" v] p by (simp add: d run_snoc)
  qed
  have o: "pre_close (run env evs)
       \<or> post_close (run env evs) \<and> \<not> list_ex is_session_result (before_load (run env evs))"
    using in_order_run [OF d(2)] by (simp add: d)
  then have c: "\<not> list_ex is_session_result (before_load (run env evs))"
    using pre_close_in_order by blast
  from o have e: "phase (run env evs) \<noteq> Profiling \<longrightarrow> service_loaded (run env evs)"
    by (auto simp: pre_close_def post_close_def)
  from o have f: "postproc_spawned (run env evs) \<longrightarrow> service_loaded (run env evs)"
    by (auto simp: pre_close_def post_close_def)
  from a b c e f show ?thesis by blast
qed

theorem service_start_after_close_witness:
  "truthy (Some ''100'')
   \<and> (\<forall>v. ServerEmit ''close'' v \<notin> set [Elapse 100])
   \<and> \<not> service_loaded (run (Some ''100'') [Elapse 100])
   \<and> \<not> list_ex is_server_emit [Elapse 100]
   \<and> acts (run (Some ''100'') ([Elapse 100] @ [ServerEmit ''close'' ''0'']))
       = acts (run (Some ''100'') [Elapse 100])
         @ [Log [''Restarting server without profiling now''],
            Log [''Finding latest profile...''], Glob ''isolate-*'',
            Require ''./server.js'']
   \<and> before_load (run (Some ''100'') [Elapse 100, ServerEmit ''close'' ''0'',
        GlobCallback (Inr [''isolate-1.log'']), StatCallback ''isolate-1.log'' (Inr 5),
        ProfileStdout ''ok'', ProfileEmit ''close'' ''0''])
       = [Log [''Profiling application for 100 ms...''],
          Require ''child_process'', Require ''glob'', Require ''fs'',
          Spawn ''node'' [''--prof'', ''server.js''],
          Pipe ''server.stdout'' ''process.stdout'', Pipe ''server.stderr'' ''process.stderr'',
          SetTimeout ''100'', Kill ''SIGINT'',
          Log [''Restarting server without profiling now''],
          Log [''Finding latest profile...''], Glob ''isolate-*'']
   \<and> phase (run (Some ''100'') [Elapse 100, ServerEmit ''close'' ''0'',
        GlobCallback (Inr [''isolate-1.log'']), StatCallback ''isolate-1.log'' (Inr 5),
        ProfileStdout ''ok'', ProfileEmit ''close'' ''0'']) = Done
   \<and> postproc_spawned (run (Some ''100'') [Elapse 100, ServerEmit ''close'' ''0'',
        GlobCallback (Inr [''isolate-1.log'']), StatCallback ''isolate-1.log'' (Inr 5),
        ProfileStdout ''ok'', ProfileEmit ''close'' ''0''])
   \<and> service_loaded (run (Some ''100'') [Elapse 100, ServerEmit ''close'' ''0'',
        GlobCallback (Inr [''isolate-1.log'']), StatCallback ''isolate-1.log'' (Inr 5),
        ProfileStdout ''ok'', ProfileEmit ''close'' ''0''])"
  using service_start_after_close [of "Some ''100''" "[Elapse 100]" "[Elapse 100]" "''0''"]
    service_start_after_close [of "Some ''100''" "[Elapse 100, ServerEmit ''close'' ''0'',
        GlobCallback (Inr [''isolate-1.log'']), StatCallback ''isolate-1.log'' (Inr 5),
        ProfileStdout ''ok'', ProfileEmit ''close'' ''0'']" "[Elapse 100]" "''0''"]
  by (simp add: truthy_def run_defs handler_defs obs_defs before_load_def pick_latest_def
        sort_by_def)

section \<open>When the post-processor is spawned\<close>

text \<open>
  C2. The post-processor is spawned strictly after the close event of the profiled child: a
  run in which that event has not occurred has spawned no post-processor, whatever else has
  happened (the timer firing included), and none is spawned in the turn of the close event
  itself either: the spawn waits for the callbacks of \<open>glob\<close> and \<open>fs.stat\<close>.
\<close>

theorem postproc_after_close:
  assumes "\<forall>v. ServerEmit ''close'' v \<notin> set evs"
  shows "\<not> postproc_spawned (run env evs)
       \<and> \<not> postproc_spawned (run env (evs @ [ServerEmit ''close'' w]))"
proof (cases "truthy env")
  case False
  then show ?thesis
    by (simp add: run_disabled start_disabled postproc_spawned_def init_def)
next
  case True
  then obtain d where d: "env = Some d" "d \<noteq> []" using truthy_Some by blast
  have p: "pre_close (run env evs)"
    using pre_close_run [OF d(2) assms] by (simp add: d)
  then have 1: "\<not> postproc_spawned (run env evs)" by (simp add: pre_close_def)
  have 2: "\<not> postproc_spawned (run env (evs @ [ServerEmit ''close'' w]))"
  proof (cases "crashed (run env evs)")
    case True
    then show ?thesis using 1 by (simp add: run_snoc step_def)
  next
    case False
    with 1 show ?thesis
      using pre_close_close [OF p, of w]
      by (simp add: run_snoc postproc_spawned_def)
  qed
  from 1 2 show ?thesis by blast
qed

theorem postproc_after_close_witness:
  "(\<forall>v. ServerEmit ''close'' v \<notin> set [TimerFired, TimerFired])
   \<and> \<not> postproc_spawned (run (Some ''100'') [TimerFired, TimerFired])
   \<and> \<not> postproc_spawned (run (Some ''100'') ([TimerFired, TimerFired] @ [ServerEmit ''close'' ''0'']))
   \<and> postproc_spawned (run (Some ''100'') [TimerFired, TimerFired, ServerEmit ''close'' ''0'',
        GlobCallback (Inr [''isolate-1.log'']), StatCallback ''isolate-1.log'' (Inr 5)])"
  using postproc_after_close [of "[TimerFired, TimerFired]" "Some ''100''" "''0''"]
  by (simp add: run_defs handler_defs obs_defs pick_latest_def sort_by_def)

section \<open>A post-processor that cannot be launched\<close>

text \<open>
  C3 (the code departs from the claim). The claim says a spawn failure of the post-processor is
  caught, logged as a warning and ends the session in \<open>Failed\<close>, and never ends the
  supervisor. The runtime reports a failed spawn by emitting \<open>'error'\<close> on the child handle, and
  the script listens for \<open>'err'\<close>: no listener is registered under \<open>'error'\<close>, so the event is
  thrown instead of reaching \<open>reject\<close>. On that input the last effect of the process is the
  uncaught exception; no warning is logged and the session is not in \<open>Failed\<close>.
\<close>

theorem spawn_error_uncaught:
  "listeners_for ''error'' profile_listeners = []
   \<and> crashed (run (Some ''100'') [TimerFired, ServerEmit ''close'' ''0'',
        GlobCallback (Inr [''isolate-1.log'']), StatCallback ''isolate-1.log'' (Inr 5),
        ProfileEmit ''error'' ''spawn node ENOENT''])
   \<and> \<not> list_ex is_warn (acts (run (Some ''100'') [TimerFired, ServerEmit ''close'' ''0'',
        GlobCallback (Inr [''isolate-1.log'']), StatCallback ''isolate-1.log'' (Inr 5),
        ProfileEmit ''error'' ''spawn node ENOENT'']))
   \<and> phase (run (Some ''100'') [TimerFired, ServerEmit ''close'' ''0'',
        GlobCallback (Inr [''isolate-1.log'']), StatCallback ''isolate-1.log'' (Inr 5),
        ProfileEmit ''error'' ''spawn node ENOENT'']) \<noteq> Failed
   \<and> last (acts (run (Some ''100'') [TimerFired, ServerEmit ''close'' ''0'',
        GlobCallback (Inr [''isolate-1.log'']), StatCallback ''isolate-1.log'' (Inr 5),
        ProfileEmit ''error'' ''spawn node ENOENT''])) = Uncaught (Value ''spawn node ENOENT'')"
  by (simp add: run_defs handler_defs pick_latest_def sort_by_def cmp_mtime_def)

text \<open>
  The path the script does provide: the same payload under the name it listens for reaches
  \<open>reject\<close> and the \<open>.catch\<close>, which logs the warning and leaves the process alive.
\<close>

lemma err_event_is_caught:
  "phase (run (Some ''100'') [TimerFired, ServerEmit ''close'' ''0'',
        GlobCallback (Inr [''isolate-1.log'']), StatCallback ''isolate-1.log'' (Inr 5),
        ProfileEmit ''err'' ''spawn node ENOENT'']) = Failed
   \<and> \<not> crashed (run (Some ''100'') [TimerFired, ServerEmit ''close'' ''0'',
        GlobCallback (Inr [''isolate-1.log'']), StatCallback ''isolate-1.log'' (Inr 5),
        ProfileEmit ''err'' ''spawn node ENOENT''])
   \<and> last (acts (run (Some ''100'') [TimerFired, ServerEmit ''close'' ''0'',
        GlobCallback (Inr [''isolate-1.log'']), StatCallback ''isolate-1.log'' (Inr 5),
        ProfileEmit ''err'' ''spawn node ENOENT'']))
       = Warn ''Error processing profile'' (Value ''spawn node ENOENT'')"
  by (simp add: run_defs handler_defs pick_latest_def sort_by_def cmp_mtime_def)

section \<open>No artifact\<close>

lemma failed_with_step: "failed_with w s \<Longrightarrow> failed_with w (step s e)"
  by (cases e)
     (auto simp: failed_with_def step_def job_def handler_defs obs_defs split: option.splits)

lemma failed_with_run: "failed_with w s \<Longrightarrow> failed_with w (foldl step s evs)"
  by (induction evs arbitrary: s) (simp_all add: failed_with_step)

lemma glob_empty_step:
  assumes "pre_close s" "\<not> crashed s"
  shows "failed_with (Warn ''Error processing profile''
            (TypeError ''Cannot read property path of undefined''))
          (step (step s (ServerEmit ''close'' v)) (GlobCallback (Inr [])))"
  using assms unfolding pre_close_close [OF assms]
  by (simp add: failed_with_def pre_close_def step_def job_def handler_defs obs_defs
        pick_latest_def sort_by_def)

text \<open>
  C4. When \<open>glob\<close> answers with no path after the profiled child has closed, the locator
  fails: the selection over the empty list throws (the script has no error class of its own for
  this; the failure the spec calls NotFoundError is the \<open>TypeError\<close> of reading \<open>.path\<close> of
  \<open>undefined\<close>). The \<open>.catch\<close> logs it as a warning, the session is \<open>Failed\<close> and stays so
  whatever happens afterwards, no report is printed, no post-processor is ever spawned, and the
  process lives on.
\<close>

theorem no_match_fails:
  assumes "d \<noteq> []" and "\<not> list_ex is_server_emit pre"
  shows "pick_latest [] = Inl (TypeError ''Cannot read property path of undefined'')
       \<and> phase (run (Some d) (pre @ [ServerEmit ''close'' v, GlobCallback (Inr [])] @ post)) = Failed
       \<and> Warn ''Error processing profile'' (TypeError ''Cannot read property path of undefined'')
           \<in> set (acts (run (Some d) (pre @ [ServerEmit ''close'' v, GlobCallback (Inr [])] @ post)))
       \<and> \<not> report_printed (run (Some d) (pre @ [ServerEmit ''close'' v, GlobCallback (Inr [])] @ post))
       \<and> \<not> postproc_spawned (run (Some d) (pre @ [ServerEmit ''close'' v, GlobCallback (Inr [])] @ post))
       \<and> \<not> crashed (run (Some d) (pre @ [ServerEmit ''close'' v, GlobCallback (Inr [])] @ post))"
proof -
  note p = pre_close_alive_run [OF assms]
  have "failed_with (Warn ''Error processing profile''
            (TypeError ''Cannot read property path of undefined''))
          (run (Some d) (pre @ [ServerEmit ''close'' v, GlobCallback (Inr [])] @ post))"
    using failed_with_run [OF glob_empty_step [of "run (Some d) pre" v], of post] p
    by (simp add: run_append)
  then show ?thesis
    by (simp add: failed_with_def pick_latest_def sort_by_def)
qed

theorem no_match_fails_witness:
  "''100'' \<noteq> [] \<and> \<not> list_ex is_server_emit [TimerFired]
   \<and> phase (run (Some ''100'') ([TimerFired] @ [ServerEmit ''close'' ''0'', GlobCallback (Inr [])]
        @ [TimerFired, ProfileEmit ''close'' ''0''])) = Failed
   \<and> Warn ''Error processing profile'' (TypeError ''Cannot read property path of undefined'')
       \<in> set (acts (run (Some ''100'') ([TimerFired] @ [ServerEmit ''close'' ''0'', GlobCallback (Inr [])]
        @ [TimerFired, ProfileEmit ''close'' ''0''])))
   \<and> \<not> postproc_spawned (run (Some ''100'') ([TimerFired] @ [ServerEmit ''close'' ''0'', GlobCallback (Inr [])]
        @ [TimerFired, ProfileEmit ''close'' ''0'']))"
  using no_match_fails [of "''100''" "[TimerFired]" "''0''" "[TimerFired, ProfileEmit ''close'' ''0'']"]
  by simp

section \<open>The captured report\<close>

lemma pp_data_step:
  "phase s = PostProcessing out \<Longrightarrow> \<not> crashed s \<Longrightarrow> \<not> then_queued s \<Longrightarrow> \<not> is_profile_emit e \<Longrightarrow>
   phase (step s e) = PostProcessing (out @ concat (map toString (stdout_chunks [e])))
   \<and> \<not> crashed (step s e) \<and> \<not> then_queued (step s e)"
  by (cases e) (auto simp: step_def job_def handler_defs split: option.splits)

lemma pp_data_run:
  "phase s = PostProcessing out \<Longrightarrow> \<not> crashed s \<Longrightarrow> \<not> then_queued s \<Longrightarrow>
   \<not> list_ex is_profile_emit evs \<Longrightarrow>
   phase (foldl step s evs) = PostProcessing (out @ concat (map toString (stdout_chunks evs)))
   \<and> \<not> crashed (foldl step s evs) \<and> \<not> then_queued (foldl step s evs)"
proof (induction evs arbitrary: s out)
  case Nil
  then show ?case by simp
next
  case (Cons e evs)
  from Cons.prems have e: "\<not> is_profile_emit e" and r: "\<not> list_ex is_profile_emit evs"
    by simp_all
  note st = pp_data_step [OF Cons.prems(1-3) e]
  have "phase (foldl step (step s e) evs)
          = PostProcessing ((out @ concat (map toString (stdout_chunks [e])))
              @ concat (map toString (stdout_chunks evs)))
        \<and> \<not> crashed (foldl step (step s e) evs) \<and> \<not> then_queued (foldl step (step s e) evs)"
    using st r by (intro Cons.IH) simp_all
  moreover have "concat (map toString (stdout_chunks [e])) @ concat (map toString (stdout_chunks evs))
                   = concat (map toString (stdout_chunks (e # evs)))"
    by (cases e) simp_all
  ultimately show ?case by simp
qed

lemma pp_close_step:
  "phase s = PostProcessing out \<Longrightarrow> \<not> crashed s \<Longrightarrow> \<not> then_queued s \<Longrightarrow>
   step s (ProfileEmit ''close'' w) = report out s"
  by (simp add: step_def job_def handler_defs)

lemma stdout_chunks_map: "stdout_chunks (map ProfileStdout chunks) = chunks"
  by (induction chunks) simp_all

lemma no_emit_map: "\<not> list_ex is_profile_emit (map ProfileStdout chunks)"
  by (induction chunks) simp_all

lemma pp_stdout_acts:
  "phase s = PostProcessing out \<Longrightarrow> \<not> then_queued s \<Longrightarrow>
   acts (foldl step s (map ProfileStdout chunks)) = acts s"
  by (induction chunks arbitrary: s out) (simp_all add: step_def job_def microtasks_def)

text \<open>A chunk of ASCII bytes is its own conversion.\<close>

lemma toString_ascii: "\<forall>c \<in> set chunk. (of_char c :: nat) < 0x80 \<Longrightarrow> toString chunk = chunk"
  unfolding toString_def
  by (induction chunk) (simp_all add: between_def lead_out_def lead_state_def)

text \<open>
  C5 (as stated, refuted). The claim says the chunks of both standard output and standard error
  of the post-processor are appended to the report buffer. Only \<open>profile.stdout\<close> has a data
  listener: after the chunk \<open>out\<close> on standard output and the chunk \<open>warning\<close> on standard error
  the buffer holds \<open>out\<close>, and that is the report printed when the child closes.
\<close>

theorem stderr_not_captured:
  "phase (run (Some ''100'') [TimerFired, ServerEmit ''close'' ''0'',
      GlobCallback (Inr [''isolate-1.log'']), StatCallback ''isolate-1.log'' (Inr 5),
      ProfileStdout ''out'', ProfileStderr ''warning'']) = PostProcessing ''out''
   \<and> Log [''out''] \<in> set (acts (run (Some ''100'') [TimerFired, ServerEmit ''close'' ''0'',
      GlobCallback (Inr [''isolate-1.log'']), StatCallback ''isolate-1.log'' (Inr 5),
      ProfileStdout ''out'', ProfileStderr ''warning'', ProfileEmit ''close'' ''0'']))"
  by (simp add: run_defs handler_defs pick_latest_def sort_by_def cmp_mtime_def)

text \<open>
  C5 (amended). From the spawn of the post-processor until it emits an event, every chunk of its
  standard output is appended to the report buffer, in arrival order, each converted to a
  string as it arrives, and nothing else is appended: whatever comes in between (chunks on
  standard error, the timer, late callbacks), the buffer is the concatenation of the conversions
  of the standard-output chunks, and that string is what is printed at the child's close.
\<close>

theorem stdout_only_captured:
  assumes "phase (run env pre) = PostProcessing []"
    and "\<not> crashed (run env pre)"
    and "\<not> list_ex is_profile_emit evs"
  shows "phase (run env (pre @ evs)) = PostProcessing (concat (map toString (stdout_chunks evs)))
       \<and> acts (run env (pre @ evs @ [ProfileEmit ''close'' w]))
           = acts (run env (pre @ evs))
             @ [Log [''===Profile Output Start============''],
                Log [concat (map toString (stdout_chunks evs))],
                Log [''===Profile Output End============'']]"
proof -
  have q: "\<not> then_queued (run env pre)" by (rule then_queued_run)
  note d = pp_data_run [OF assms(1,2) q assms(3)]
  then have 1: "phase (run env (pre @ evs))
                  = PostProcessing (concat (map toString (stdout_chunks evs)))"
    by (simp add: run_append)
  have "run env (pre @ evs @ [ProfileEmit ''close'' w])
          = step (run env (pre @ evs)) (ProfileEmit ''close'' w)"
    using run_snoc [of env "pre @ evs"] by simp
  also have "\<dots> = report (concat (map toString (stdout_chunks evs))) (run env (pre @ evs))"
    using d by (intro pp_close_step) (simp_all add: run_append)
  finally have 2: "acts (run env (pre @ evs @ [ProfileEmit ''close'' w]))
           = acts (run env (pre @ evs))
             @ [Log [''===Profile Output Start============''],
                Log [concat (map toString (stdout_chunks evs))],
                Log [''===Profile Output End============'']]"
    by (simp add: report_def do_acts_def)
  from 1 2 show ?thesis by blast
qed

theorem stdout_only_captured_witness:
  "phase (run (Some ''100'') [TimerFired, ServerEmit ''close'' ''0'',
      GlobCallback (Inr [''isolate-1.log'']), StatCallback ''isolate-1.log'' (Inr 5)]) = PostProcessing []
   \<and> \<not> crashed (run (Some ''100'') [TimerFired, ServerEmit ''close'' ''0'',
      GlobCallback (Inr [''isolate-1.log'']), StatCallback ''isolate-1.log'' (Inr 5)])
   \<and> \<not> list_ex is_profile_emit [ProfileStdout ''AB'', ProfileStderr ''warning'', ProfileStdout ''CD'']
   \<and> phase (run (Some ''100'') ([TimerFired, ServerEmit ''close'' ''0'',
      GlobCallback (Inr [''isolate-1.log'']), StatCallback ''isolate-1.log'' (Inr 5)]
        @ [ProfileStdout ''AB'', ProfileStderr ''warning'', ProfileStdout ''CD''])) = PostProcessing ''ABCD''"
proof -
  have 1: "phase (run (Some ''100'') [TimerFired, ServerEmit ''close'' ''0'',
      GlobCallback (Inr [''isolate-1.log'']), StatCallback ''isolate-1.log'' (Inr 5)]) = PostProcessing []
   \<and> \<not> crashed (run (Some ''100'') [TimerFired, ServerEmit ''close'' ''0'',
      GlobCallback (Inr [''isolate-1.log'']), StatCallback ''isolate-1.log'' (Inr 5)])"
    by (simp add: run_defs handler_defs pick_latest_def sort_by_def cmp_mtime_def)
  have 2: "\<not> list_ex is_profile_emit [ProfileStdout ''AB'', ProfileStderr ''warning'', ProfileStdout ''CD'']"
    by simp
  from stdout_only_captured [OF conjunct1 [OF 1] conjunct2 [OF 1] 2] 1 2 show ?thesis
    by (simp add: decode_defs)
qed

text \<open>
  What the script prints for chunks of standard output followed by the close: the
  concatenation of their conversions. When every chunk is ASCII that is the concatenation of
  the chunks, as for \<open>AB\<close>, \<open>CD\<close>, \<open>EF\<close>.
\<close>

lemma report_of_chunks:
  assumes "phase (run env pre) = PostProcessing []"
    and "\<not> crashed (run env pre)"
  shows "acts (run env (pre @ map ProfileStdout chunks @ [ProfileEmit ''close'' w]))
           = acts (run env pre)
             @ [Log [''===Profile Output Start============''],
                Log [concat (map toString chunks)],
                Log [''===Profile Output End============'']]
       \<and> phase (run env (pre @ map ProfileStdout chunks @ [ProfileEmit ''close'' w])) = Done"
proof -
  have q: "\<not> then_queued (run env pre)" by (rule then_queued_run)
  note d = pp_data_run [OF assms(1,2) q no_emit_map [of chunks]]
  have "run env (pre @ map ProfileStdout chunks @ [ProfileEmit ''close'' w])
          = step (run env (pre @ map ProfileStdout chunks)) (ProfileEmit ''close'' w)"
    using run_snoc [of env "pre @ map ProfileStdout chunks"] by simp
  also have "\<dots> = report (concat (map toString chunks))
                      (run env (pre @ map ProfileStdout chunks))"
    using d by (intro pp_close_step) (simp_all add: run_append stdout_chunks_map)
  finally show ?thesis
    using pp_stdout_acts [OF assms(1) q, of chunks]
    by (simp add: report_def do_acts_def run_append)
qed

lemma report_of_ascii_chunks:
  assumes "phase (run env pre) = PostProcessing []"
    and "\<not> crashed (run env pre)"
    and "\<forall>chunk \<in> set chunks. \<forall>c \<in> set chunk. (of_char c :: nat) < 0x80"
  shows "acts (run env (pre @ map ProfileStdout chunks @ [ProfileEmit ''close'' w]))
           = acts (run env pre)
             @ [Log [''===Profile Output Start============''],
                Log [concat chunks],
                Log [''===Profile Output End============'']]"
proof -
  have "map toString chunks = chunks"
    using assms(3) by (induction chunks) (simp_all add: toString_ascii)
  then show ?thesis using report_of_chunks [OF assms(1,2), of chunks w] by simp
qed

lemma report_ABCDEF:
  "Log [''ABCDEF''] \<in> set (acts (run (Some ''100'') [TimerFired, ServerEmit ''close'' ''0'',
      GlobCallback (Inr [''isolate-1.log'']), StatCallback ''isolate-1.log'' (Inr 5),
      ProfileStdout ''AB'', ProfileStdout ''CD'', ProfileStdout ''EF'', ProfileEmit ''close'' ''0'']))"
  by (simp add: run_defs handler_defs pick_latest_def sort_by_def cmp_mtime_def)

text \<open>
  C7 (the code departs from the claim). The claim says the report is the concatenation, in arrival
  order, of the chunks the post-processor emitted. The script converts every chunk to a string
  on its own before it appends it, so a character whose bytes arrive in two chunks is lost: for
  \<open>C3 A9\<close> (the letter e with an acute accent) delivered as the chunk \<open>C3\<close> and the chunk \<open>A9\<close>,
  the report is two replacement characters (\<open>EF BF BD\<close> twice), and the character the child
  emitted is not in it; delivered in one chunk the same bytes are reported as they are.
\<close>

theorem split_character_report:
  "toString [CHR 0xC3, CHR 0xA9] = [CHR 0xC3, CHR 0xA9]
   \<and> Log [[CHR 0xC3, CHR 0xA9]] \<in> set (acts (run (Some ''100'') [TimerFired,
        ServerEmit ''close'' ''0'',
        GlobCallback (Inr [''isolate-1.log'']), StatCallback ''isolate-1.log'' (Inr 5),
        ProfileStdout [CHR 0xC3, CHR 0xA9], ProfileEmit ''close'' ''0'']))
   \<and> Log [[CHR 0xEF, CHR 0xBF, CHR 0xBD, CHR 0xEF, CHR 0xBF, CHR 0xBD]]
       \<in> set (acts (run (Some ''100'') [TimerFired, ServerEmit ''close'' ''0'',
        GlobCallback (Inr [''isolate-1.log'']), StatCallback ''isolate-1.log'' (Inr 5),
        ProfileStdout [CHR 0xC3], ProfileStdout [CHR 0xA9], ProfileEmit ''close'' ''0'']))
   \<and> Log [[CHR 0xC3, CHR 0xA9]] \<notin> set (acts (run (Some ''100'') [TimerFired,
        ServerEmit ''close'' ''0'',
        GlobCallback (Inr [''isolate-1.log'']), StatCallback ''isolate-1.log'' (Inr 5),
        ProfileStdout [CHR 0xC3], ProfileStdout [CHR 0xA9], ProfileEmit ''close'' ''0'']))"
  by (simp add: run_defs handler_defs pick_latest_def sort_by_def cmp_mtime_def)

section \<open>The most recent artifact\<close>

lemma sort_by_Cons: "sort_by cmp (x # xs) = insert_by cmp x (sort_by cmp xs)"
  by (simp add: sort_by_def)

text \<open>
  The sorted list starts with the first element of the input whose timestamp is the greatest:
  everything in front of it is strictly older, nothing behind it is newer.
\<close>

lemma sort_by_first:
  "xs \<noteq> [] \<Longrightarrow>
   \<exists>pre c post rest. xs = pre @ c # post \<and> sort_by cmp_mtime xs = c # rest
     \<and> (\<forall>a \<in> set pre. mtime a < mtime c) \<and> (\<forall>a \<in> set post. mtime a \<le> mtime c)"
proof (induction xs)
  case Nil
  then show ?case by simp
next
  case (Cons x xs)
  show ?case
  proof (cases "xs = []")
    case True
    have "x # xs = [] @ x # [] \<and> sort_by cmp_mtime (x # xs) = x # []"
      by (simp add: True sort_by_def)
    then show ?thesis by fastforce
  next
    case False
    from Cons.IH [OF False] obtain pre c post rest where
      xs: "xs = pre @ c # post" and so: "sort_by cmp_mtime xs = c # rest"
      and lt: "\<forall>a \<in> set pre. mtime a < mtime c" and le: "\<forall>a \<in> set post. mtime a \<le> mtime c"
      by blast
    show ?thesis
    proof (cases "mtime c \<le> mtime x")
      case True
      then have "sort_by cmp_mtime (x # xs) = x # c # rest"
        by (simp add: sort_by_Cons so cmp_mtime_def)
      moreover have "\<forall>a \<in> set xs. mtime a \<le> mtime x"
        using xs lt le True by auto
      moreover have "x # xs = [] @ x # xs" by simp
      ultimately show ?thesis by (metis empty_iff list.set(1))
    next
      case False
      then have "sort_by cmp_mtime (x # xs) = c # insert_by cmp_mtime x rest"
        by (simp add: sort_by_Cons so cmp_mtime_def)
      moreover have "\<forall>a \<in> set (x # pre). mtime a < mtime c"
        using lt False by auto
      moreover have "x # xs = (x # pre) @ c # post" by (simp add: xs)
      ultimately show ?thesis using le by blast
    qed
  qed
qed

text \<open>
  C6. For a non-empty list of candidates with their timestamps, the locator returns the path of
  a candidate whose last-modified timestamp is the greatest; among candidates with exactly that
  timestamp it is the first in listing order. For \<open>A\<close> at 10, \<open>B\<close> at 30, \<open>C\<close> at 20 it
  returns \<open>B\<close>.
\<close>

theorem pick_latest_greatest:
  assumes "paths \<noteq> []"
  shows "\<exists>pre c post. paths = pre @ c # post \<and> pick_latest paths = Inr (path c)
     \<and> (\<forall>a \<in> set pre. mtime a < mtime c) \<and> (\<forall>a \<in> set post. mtime a \<le> mtime c)"
proof -
  from sort_by_first [OF assms] obtain pre c post rest where
    "paths = pre @ c # post" "sort_by cmp_mtime paths = c # rest"
    "\<forall>a \<in> set pre. mtime a < mtime c" "\<forall>a \<in> set post. mtime a \<le> mtime c"
    by blast
  then show ?thesis by (auto simp: pick_latest_def)
qed

theorem pick_latest_greatest_witness:
  "[\<lparr>path = ''A'', mtime = 10\<rparr>, \<lparr>path = ''B'', mtime = 30\<rparr>, \<lparr>path = ''C'', mtime = 20\<rparr>] \<noteq> []
   \<and> pick_latest [\<lparr>path = ''A'', mtime = 10\<rparr>, \<lparr>path = ''B'', mtime = 30\<rparr>, \<lparr>path = ''C'', mtime = 20\<rparr>]
       = Inr ''B''
   \<and> pick_latest [\<lparr>path = ''A'', mtime = 30\<rparr>, \<lparr>path = ''B'', mtime = 30\<rparr>, \<lparr>path = ''C'', mtime = 20\<rparr>]
       = Inr ''A''
   \<and> (\<exists>pre c post.
        [\<lparr>path = ''A'', mtime = 10\<rparr>, \<lparr>path = ''B'', mtime = 30\<rparr>, \<lparr>path = ''C'', mtime = 20\<rparr>]
          = pre @ c # post
        \<and> Inr ''B'' = (Inr (path c) :: error + string)
        \<and> (\<forall>a \<in> set pre. mtime a < mtime c) \<and> (\<forall>a \<in> set post. mtime a \<le> mtime c))
   \<and> Spawn ''node'' [''--prof-process'', ''B'']
       \<in> set (acts (run (Some ''100'') [TimerFired, ServerEmit ''close'' ''0'',
            GlobCallback (Inr [''A'', ''B'', ''C'']),
            StatCallback ''C'' (Inr 20), StatCallback ''A'' (Inr 10), StatCallback ''B'' (Inr 30)]))"
proof -
  have v: "pick_latest [\<lparr>path = ''A'', mtime = 10\<rparr>, \<lparr>path = ''B'', mtime = 30\<rparr>, \<lparr>path = ''C'', mtime = 20\<rparr>]
       = Inr ''B''"
    by (simp add: pick_latest_def sort_by_def cmp_mtime_def)
  have w: "pick_latest [\<lparr>path = ''A'', mtime = 30\<rparr>, \<lparr>path = ''B'', mtime = 30\<rparr>, \<lparr>path = ''C'', mtime = 20\<rparr>]
       = Inr ''A''"
    by (simp add: pick_latest_def sort_by_def cmp_mtime_def)
  have r: "Spawn ''node'' [''--prof-process'', ''B'']
       \<in> set (acts (run (Some ''100'') [TimerFired, ServerEmit ''close'' ''0'',
            GlobCallback (Inr [''A'', ''B'', ''C'']),
            StatCallback ''C'' (Inr 20), StatCallback ''A'' (Inr 10), StatCallback ''B'' (Inr 30)]))"
    by (simp add: run_defs handler_defs pick_latest_def sort_by_def cmp_mtime_def)
  show ?thesis
    using pick_latest_greatest
      [of "[\<lparr>path = ''A'', mtime = 10\<rparr>, \<lparr>path = ''B'', mtime = 30\<rparr>, \<lparr>path = ''C'', mtime = 20\<rparr>]"]
    unfolding v using w r by simp
qed

section \<open>Profiling disabled\<close>

text \<open>
  C8. When \<open>DEBUG_PROFILE_TIME\<close> is unset or empty, the executor resolves at once: the only
  thing the script ever does is require \<open>./server.js\<close>, before any event and whatever events
  follow, and no child process is spawned.
\<close>

theorem disabled_fast_path:
  assumes "\<not> truthy env"
  shows "acts (run env evs) = [Require ''./server.js'']
       \<and> service_loaded (run env evs)
       \<and> \<not> list_ex is_spawn (acts (run env evs))"
  using assms by (simp add: run_disabled start_disabled service_loaded_def)

theorem disabled_fast_path_witness:
  "\<not> truthy None \<and> \<not> truthy (Some [])
   \<and> acts (run None [TimerFired, ServerEmit ''close'' ''0'']) = [Require ''./server.js'']
   \<and> acts (run (Some []) []) = [Require ''./server.js'']"
  using disabled_fast_path [of None "[TimerFired, ServerEmit ''close'' ''0'']"]
    disabled_fast_path [of "Some []" "[]"]
  by (simp add: truthy_def)

section \<open>The timed termination request\<close>















section \<open>The outer promise\<close>

text \<open>When no call of the executor throws, the host is as good as the healthy one.\<close>

lemma start_in_healthy:
  "\<not> (truthy env \<and> executor_throws h) \<Longrightarrow> start_in h env = start env"
  by (cases env)
     (auto simp: truthy_def executor_throws_def start_def start_in_def executor_def attempt_def
        healthy_def)

lemma run_in_healthy:
  "\<not> (truthy env \<and> executor_throws h) \<Longrightarrow> run_in h env evs = run env evs"
  by (simp add: run_in_def run_def start_in_healthy)

text \<open>When one throws, the promise is rejected and stays so, and nothing was set up.\<close>

lemma start_in_aborted:
  "d \<noteq> [] \<Longrightarrow> executor_throws h \<Longrightarrow> aborted (start_in h (Some d))"
  by (auto simp: aborted_def executor_throws_def start_in_def executor_def attempt_def init_def
        handler_defs service_loaded_def)

lemma aborted_step: "aborted s \<Longrightarrow> aborted (step s e)"
  by (cases e)
     (auto simp: aborted_def step_def job_def handler_defs service_loaded_def
           split: option.splits)

lemma aborted_run: "aborted s \<Longrightarrow> aborted (foldl step s evs)"
  by (induction evs arbitrary: s) (simp_all add: aborted_step)

text \<open>
  C10 (as stated, refuted). The claim says the outer promise can only resolve. An exception
  thrown inside the executor rejects it: on a host where the module \<open>glob\<close> is not installed,
  \<open>require('glob')\<close> throws, the promise is rejected, \<open>resolve\<close> is never called, and
  \<open>./server.js\<close> is not loaded, whatever happens afterwards.
\<close>

theorem outer_rejected_by_throw:
  "outer (run_in (healthy\<lparr>module_missing := (\<lambda>m. m = ''glob'')\<rparr>) (Some ''100'')
      [Elapse 100, TimerFired, ServerEmit ''close'' ''0'']) = Rejected
   \<and> resolve_calls (run_in (healthy\<lparr>module_missing := (\<lambda>m. m = ''glob'')\<rparr>) (Some ''100'')
      [Elapse 100, TimerFired, ServerEmit ''close'' ''0'']) = 0
   \<and> \<not> service_loaded (run_in (healthy\<lparr>module_missing := (\<lambda>m. m = ''glob'')\<rparr>) (Some ''100'')
      [Elapse 100, TimerFired, ServerEmit ''close'' ''0''])"
  by (simp add: run_defs handler_defs service_loaded_def)

text \<open>
  C10 (amended). The script never calls \<open>reject\<close>: the outer promise is rejected exactly when
  profiling is enabled and a call inside the executor throws (a module that cannot be loaded,
  \<open>spawn\<close> throwing, a child handle without streams), and then \<open>resolve\<close> is never called and
  the wrapped service is never loaded. In every other run the promise is never rejected and
  \<open>resolve\<close> is called at most once: at once when profiling is disabled, and otherwise in the
  handler of the profiled child's close event, not before it and once from then on; the
  wrapped service is loaded exactly when that call has been made. The profiled child is taken
  to emit \<open>close\<close> once.
\<close>

theorem outer_rejected_only_by_throw:
  shows "(truthy env \<and> executor_throws h \<longrightarrow>
            outer (run_in h env evs) = Rejected
            \<and> resolve_calls (run_in h env evs) = 0
            \<and> \<not> service_loaded (run_in h env evs))
       \<and> (\<not> (truthy env \<and> executor_throws h) \<longrightarrow>
            run_in h env evs = run env evs
            \<and> outer (run_in h env evs) \<noteq> Rejected
            \<and> resolve_calls (run_in h env evs) \<le> 1
            \<and> (service_loaded (run_in h env evs) \<longleftrightarrow> resolve_calls (run_in h env evs) = 1))
       \<and> (\<not> truthy env \<longrightarrow> resolve_calls (run_in h env evs) = 1)
       \<and> (truthy env \<and> \<not> executor_throws h \<and> \<not> list_ex is_server_emit pre \<longrightarrow>
            resolve_calls (run_in h env pre) = 0
            \<and> resolve_calls (run_in h env (pre @ ServerEmit ''close'' v # post)) = 1)"
proof -
  have healthy_case:
    "outer (run env evs) \<noteq> Rejected \<and> resolve_calls (run env evs) \<le> 1
     \<and> (service_loaded (run env evs) \<longleftrightarrow> resolve_calls (run env evs) = 1)
     \<and> (\<not> truthy env \<longrightarrow> resolve_calls (run env evs) = 1)" for evs
  proof (cases "truthy env")
    case False
    then show ?thesis
      by (simp add: run_disabled start_disabled service_loaded_def init_def)
  next
    case True
    then obtain d where d: "env = Some d" "d \<noteq> []" using truthy_Some by blast
    have "pre_close (run env evs) \<or> post_close (run env evs)"
      using reach_inv [OF d(2)] by (simp add: d)
    with True show ?thesis by (auto simp: pre_close_def post_close_def)
  qed
  have a: "outer (run_in h env evs) = Rejected \<and> resolve_calls (run_in h env evs) = 0
            \<and> \<not> service_loaded (run_in h env evs)"
    if "truthy env" "executor_throws h"
  proof -
    from that(1) obtain d where d: "env = Some d" "d \<noteq> []" using truthy_Some by blast
    have "aborted (run_in h env evs)"
      unfolding run_in_def d by (rule aborted_run [OF start_in_aborted [OF d(2) that(2)]])
    then show ?thesis by (simp add: aborted_def)
  qed
  have b: "run_in h env evs = run env evs
            \<and> outer (run_in h env evs) \<noteq> Rejected
            \<and> resolve_calls (run_in h env evs) \<le> 1
            \<and> (service_loaded (run_in h env evs) \<longleftrightarrow> resolve_calls (run_in h env evs) = 1)"
    if "\<not> (truthy env \<and> executor_throws h)"
    using healthy_case [of evs] run_in_healthy [OF that] by simp
  have c: "resolve_calls (run_in h env evs) = 1" if "\<not> truthy env"
    using healthy_case [of evs] run_in_healthy [of env h evs] that by simp
  have e: "resolve_calls (run_in h env pre) = 0
            \<and> resolve_calls (run_in h env (pre @ ServerEmit ''close'' v # post)) = 1"
    if t: "truthy env" and nt: "\<not> executor_throws h" and n: "\<not> list_ex is_server_emit pre"
  proof -
    from t obtain d where d: "env = Some d" "d \<noteq> []" using truthy_Some by blast
    note p = pre_close_alive_run [OF d(2) n]
    have "post_close (step (run (Some d) pre) (ServerEmit ''close'' v))"
      using pre_close_close [of "run (Some d) pre" v] p
      by (simp add: post_close_def pre_close_def service_loaded_def)
    then have "post_close (run env (pre @ ServerEmit ''close'' v # post))"
      by (simp add: d run_append post_close_run)
    with p have "resolve_calls (run env pre) = 0
        \<and> resolve_calls (run env (pre @ ServerEmit ''close'' v # post)) = 1"
      by (simp add: d pre_close_def post_close_def)
    then show ?thesis using nt by (simp add: run_in_healthy)
  qed
  from a b c e show ?thesis by blast
qed

theorem outer_rejected_only_by_throw_witness:
  "truthy (Some ''100'') \<and> executor_throws (healthy\<lparr>spawn_throws := True\<rparr>)
   \<and> outer (run_in (healthy\<lparr>spawn_throws := True\<rparr>) (Some ''100'') [Elapse 100]) = Rejected
   \<and> \<not> service_loaded (run_in (healthy\<lparr>spawn_throws := True\<rparr>) (Some ''100'') [Elapse 100])
   \<and> \<not> truthy None
   \<and> resolve_calls (run_in (healthy\<lparr>spawn_throws := True\<rparr>) None [Elapse 100]) = 1
   \<and> service_loaded (run_in (healthy\<lparr>spawn_throws := True\<rparr>) None [Elapse 100])
   \<and> \<not> executor_throws healthy \<and> \<not> list_ex is_server_emit [Elapse 100]
   \<and> resolve_calls (run_in healthy (Some ''100'') [Elapse 100]) = 0
   \<and> \<not> service_loaded (run_in healthy (Some ''100'') [Elapse 100])
   \<and> resolve_calls (run_in healthy (Some ''100'')
        ([Elapse 100] @ ServerEmit ''close'' ''0'' # [GlobCallback (Inr [])])) = 1
   \<and> service_loaded (run_in healthy (Some ''100'')
        ([Elapse 100] @ ServerEmit ''close'' ''0'' # [GlobCallback (Inr [])]))"
  using outer_rejected_only_by_throw [of "Some ''100''" "healthy\<lparr>spawn_throws := True\<rparr>"
      "[Elapse 100]" "[]" "''0''" "[]"]
    outer_rejected_only_by_throw [of None "healthy\<lparr>spawn_throws := True\<rparr>"
      "[Elapse 100]" "[]" "''0''" "[]"]
    outer_rejected_only_by_throw [of "Some ''100''" healthy "[Elapse 100]" "[Elapse 100]" "''0''"
      "[GlobCallback (Inr [])]"]
    outer_rejected_only_by_throw [of "Some ''100''" healthy
      "[Elapse 100] @ ServerEmit ''close'' ''0'' # [GlobCallback (Inr [])]" "[Elapse 100]" "''0''"
      "[GlobCallback (Inr [])]"]
  by (simp add: truthy_def executor_throws_def run_defs handler_defs service_loaded_def
        pick_latest_def sort_by_def)

end
